theory Spec2Isabelle
  imports Complex_Main
begin

section \<open>BarcodeGen: label layout and input validation\<close>

text \<open>
  The repository has two Python modules: \<^verbatim>\<open>app.py\<close> (a web form that validates a colour
  code, a series letter and a numeric range, and draws one 70mm x 30mm label per serial
  number) and \<^verbatim>\<open>make_custom_barcodes.py\<close> (a script that draws the same label for a literal
  list of numbers).

  Modelling decisions.
  \<^item> Python floats are modelled by the type \<open>real\<close>: every arithmetic operation is exact,
    rounding to binary64 is not modelled. Equalities between computed lengths are
    therefore equalities of exact arithmetic.
  \<^item> Python text is modelled by \<open>string\<close>; a character is a code point below 256.
  \<^item> A raised exception is the left injection of a sum type.
  \<^item> The reportlab canvas is the list of the drawing calls made on it, oldest first.
  \<^item> The two reportlab services the code reads a number from (the width of an encoded
    Code 128 symbol, the width of a string in a font) are parameters of the model.
\<close>

subsection \<open>Exceptions, the canvas and the encoder\<close>

datatype error = ValueError string | KeyError string | ZeroDivisionError

text \<open>The keyword arguments of \<^verbatim>\<open>code128.Code128(value, barHeight=, barWidth=, humanReadable=)\<close>.\<close>

record Code128 =
  barcode_value :: string
  barHeight :: real
  barWidth :: real
  humanReadable :: bool

datatype canvas_op =
    DrawOn Code128 real real
  | SetFillColor string
  | SetFont string real
  | DrawString real real string
  | ShowPage

type_synonym canvas = "canvas_op list"

text \<open>\<^verbatim>\<open>Code128(...).width\<close> and \<^verbatim>\<open>c.stringWidth(text, font_name, font_size)\<close>.\<close>

type_synonym encoder = "Code128 \<Rightarrow> real"
type_synonym font_metrics = "string \<Rightarrow> string \<Rightarrow> real \<Rightarrow> real"

subsection \<open>Constants of \<^verbatim>\<open>app.py\<close>\<close>

definition MM_TO_PT :: real where
  "MM_TO_PT = 72.0 / 25.4"

definition PAGE_W :: real where
  "PAGE_W = 70 * MM_TO_PT"

definition PAGE_H :: real where
  "PAGE_H = 30 * MM_TO_PT"

text \<open>
  The locals of \<^verbatim>\<open>draw_single_label\<close> that depend on nothing but the constants
  (lines 33 to 58), under the names the source gives them.
\<close>

definition outer_margin_mm :: real where
  "outer_margin_mm = 1.0"

definition left_margin :: real where
  "left_margin = outer_margin_mm * MM_TO_PT"

definition right_margin :: real where
  "right_margin = outer_margin_mm * MM_TO_PT"

definition top_margin :: real where
  "top_margin = 1.0 * MM_TO_PT"

definition bottom_margin :: real where
  "bottom_margin = 1.0 * MM_TO_PT"

definition font_name :: string where
  "font_name = ''Helvetica''"

definition font_size :: real where
  "font_size = 8"

definition gap_above_text :: real where
  "gap_above_text = 0.8 * MM_TO_PT"

definition text_band_h :: real where
  "text_band_h = font_size + gap_above_text"

definition usable_w :: real where
  "usable_w = PAGE_W - left_margin - right_margin"

definition usable_h :: real where
  "usable_h = PAGE_H - top_margin - bottom_margin - text_band_h"

definition X_MIN_MM :: real where
  "X_MIN_MM = 0.30"

definition X_MIN_PT :: real where
  "X_MIN_PT = X_MIN_MM * MM_TO_PT"

definition QUIET_X_MULT :: real where
  "QUIET_X_MULT = 10"

definition quiet_each_side :: real where
  "quiet_each_side = max (QUIET_X_MULT * X_MIN_PT) (2.0 * MM_TO_PT)"

definition BAR_HEIGHT_MM :: real where
  "BAR_HEIGHT_MM = 14"

definition bar_height :: real where
  "bar_height = min usable_h (BAR_HEIGHT_MM * MM_TO_PT)"

subsection \<open>The sizing rule of \<^verbatim>\<open>draw_single_label\<close> (\<^verbatim>\<open>app.py\<close>, lines 64 to 75)\<close>

text \<open>
  The else branch (lines 71 to 75) as a function of the two variables it reads, the usable
  width \<open>w\<close> and the module count. It returns \<^verbatim>\<open>(bar_width, internal_quiet)\<close>. Python's
  division raises \<^verbatim>\<open>ZeroDivisionError\<close> on a zero divisor.
\<close>

definition scale_to_fit :: "real \<Rightarrow> real \<Rightarrow> error + real \<times> real" where
  "scale_to_fit w module_count =
     (let safety_quiet = max (0.1 * MM_TO_PT) (0.05 * (w / 2.0));
          available_for_bars = max (w - 2 * safety_quiet) 1
      in if module_count = 0 then Inl ZeroDivisionError
         else Inr (available_for_bars / module_count, safety_quiet))"

text \<open>Lines 64 to 75: the width at the minimum module, and the choice between the branches.\<close>

definition choose_bar_width :: "real \<Rightarrow> real \<Rightarrow> error + real \<times> real" where
  "choose_bar_width w module_count =
     (let width_at_xmin = module_count * X_MIN_PT + 2 * quiet_each_side
      in if width_at_xmin \<le> w then Inr (X_MIN_PT, quiet_each_side)
         else scale_to_fit w module_count)"

subsection \<open>\<^verbatim>\<open>draw_single_label\<close> of \<^verbatim>\<open>app.py\<close>\<close>

text \<open>
  Lines 60 to 62 measure the symbol at a bar width of one point (\<open>module_count_of\<close>); the
  function then chooses the bar width, draws the symbol and then the caption. \<open>enc\<close> is
  the encoder's width query and \<open>sw\<close> the canvas's \<^verbatim>\<open>stringWidth\<close>; the new canvas is the old one followed by the four calls.
\<close>

definition module_count_of :: "encoder \<Rightarrow> string \<Rightarrow> real" where
  "module_count_of enc barcode_text =
     (let tmp = \<lparr>barcode_value = barcode_text, barHeight = bar_height, barWidth = 1.0,
                 humanReadable = False\<rparr>
      in enc tmp)"

definition draw_single_label ::
  "encoder \<Rightarrow> font_metrics \<Rightarrow> canvas \<Rightarrow> string \<Rightarrow> string \<Rightarrow> error + canvas" where
  "draw_single_label enc sw c barcode_text color_name =
     (let module_count = module_count_of enc barcode_text
      in case choose_bar_width usable_w module_count of
           Inl e \<Rightarrow> Inl e
         | Inr (bar_width, internal_quiet) \<Rightarrow>
             (let bc = \<lparr>barcode_value = barcode_text, barHeight = bar_height,
                        barWidth = bar_width, humanReadable = False\<rparr>;
                  x = left_margin + internal_quiet;
                  y = bottom_margin + text_band_h + (usable_h - bar_height) / 2.0;
                  label_text = barcode_text @ '' | '' @ color_name;
                  text_w = sw label_text font_name font_size
              in Inr (c @ [DrawOn bc x y,
                           SetFillColor ''black'',
                           SetFont font_name font_size,
                           DrawString ((PAGE_W - text_w) / 2.0) bottom_margin label_text])))"

subsection \<open>\<^verbatim>\<open>draw_single_label\<close> of \<^verbatim>\<open>make_custom_barcodes.py\<close>\<close>

text \<open>
  The script has its own copies of the three module constants and of the function. The
  copy is transcribed line by line, every local a \<open>let\<close>, with the branch written in
  place (lines 22 to 84 of the script).
\<close>

definition MM_TO_PT_script :: real where
  "MM_TO_PT_script = 72.0 / 25.4"

definition PAGE_W_script :: real where
  "PAGE_W_script = 70 * MM_TO_PT_script"

definition PAGE_H_script :: real where
  "PAGE_H_script = 30 * MM_TO_PT_script"

definition draw_single_label_script ::
  "encoder \<Rightarrow> font_metrics \<Rightarrow> canvas \<Rightarrow> string \<Rightarrow> string \<Rightarrow> error + canvas" where
  "draw_single_label_script enc sw c barcode_text color_name =
     (let outer_margin_mm = 1.0;
          left_margin = outer_margin_mm * MM_TO_PT_script;
          right_margin = outer_margin_mm * MM_TO_PT_script;
          top_margin = 1.0 * MM_TO_PT_script;
          bottom_margin = 1.0 * MM_TO_PT_script;
          font_name = ''Helvetica'';
          font_size = 8;
          gap_above_text = 0.8 * MM_TO_PT_script;
          text_band_h = font_size + gap_above_text;
          usable_w = PAGE_W_script - left_margin - right_margin;
          usable_h = PAGE_H_script - top_margin - bottom_margin - text_band_h;
          X_MIN_MM = 0.30;
          X_MIN_PT = X_MIN_MM * MM_TO_PT_script;
          QUIET_X_MULT = 10;
          quiet_each_side = max (QUIET_X_MULT * X_MIN_PT) (2.0 * MM_TO_PT_script);
          BAR_HEIGHT_MM = 14;
          bar_height = min usable_h (BAR_HEIGHT_MM * MM_TO_PT_script);
          tmp = \<lparr>barcode_value = barcode_text, barHeight = bar_height, barWidth = 1.0,
                 humanReadable = False\<rparr>;
          module_count = enc tmp;
          width_at_xmin = module_count * X_MIN_PT + 2 * quiet_each_side;
          sized =
            (if width_at_xmin \<le> usable_w then Inr (X_MIN_PT, quiet_each_side)
             else
               (let safety_quiet = max (0.1 * MM_TO_PT_script) (0.05 * (usable_w / 2.0));
                    available_for_bars = max (usable_w - 2 * safety_quiet) 1
                in if module_count = 0 then Inl ZeroDivisionError
                   else Inr (available_for_bars / module_count, safety_quiet)))
      in case sized of
           Inl e \<Rightarrow> Inl e
         | Inr (bar_width, internal_quiet) \<Rightarrow>
             (let bc = \<lparr>barcode_value = barcode_text, barHeight = bar_height,
                        barWidth = bar_width, humanReadable = False\<rparr>;
                  x = left_margin + internal_quiet;
                  y = bottom_margin + text_band_h + (usable_h - bar_height) / 2.0;
                  label_text = barcode_text @ '' | '' @ color_name;
                  text_w = sw label_text font_name font_size
              in Inr (c @ [DrawOn bc x y,
                           SetFillColor ''black'',
                           SetFont font_name font_size,
                           DrawString ((PAGE_W_script - text_w) / 2.0) bottom_margin
                             label_text])))"

subsection \<open>Python text operations used by \<^verbatim>\<open>validate_inputs\<close>\<close>

text \<open>
  The operations follow Python on the code points 0 to 255. \<^verbatim>\<open>str.isspace\<close> holds of the
  code points 9 to 13, 28 to 32, 133 and 160; \<^verbatim>\<open>str.isdigit\<close> of the ten decimal digits
  and of the superscripts 178, 179 and 185, which \<^verbatim>\<open>int\<close> refuses.
\<close>

definition py_isspace :: "char \<Rightarrow> bool" where
  "py_isspace ch =
     (let n = (of_char ch :: nat)
      in (9 \<le> n \<and> n \<le> 13) \<or> (28 \<le> n \<and> n \<le> 32) \<or> n = 133 \<or> n = 160)"

definition py_strip :: "string \<Rightarrow> string" where
  "py_strip s = rev (dropWhile py_isspace (rev (dropWhile py_isspace s)))"

text \<open>
  \<^verbatim>\<open>str.upper\<close>, one character at a time: the sharp s (223) becomes two letters. The
  upper-case forms of the code points 181 and 255 lie beyond 255; the model leaves these
  two characters as they are (neither form is a letter of any series).
\<close>

definition upper_char :: "char \<Rightarrow> string" where
  "upper_char ch =
     (let n = (of_char ch :: nat)
      in if 97 \<le> n \<and> n \<le> 122 then [char_of (n - 32)]
         else if n = 223 then ''SS''
         else if 224 \<le> n \<and> n \<le> 254 \<and> n \<noteq> 247 then [char_of (n - 32)]
         else [ch])"

definition py_upper :: "string \<Rightarrow> string" where
  "py_upper s = concat (map upper_char s)"

definition is_decimal :: "char \<Rightarrow> bool" where
  "is_decimal ch = (let n = (of_char ch :: nat) in 48 \<le> n \<and> n \<le> 57)"

definition isdigit_char :: "char \<Rightarrow> bool" where
  "isdigit_char ch =
     (let n = (of_char ch :: nat) in is_decimal ch \<or> n = 178 \<or> n = 179 \<or> n = 185)"

definition py_isdigit :: "string \<Rightarrow> bool" where
  "py_isdigit s = (s \<noteq> [] \<and> list_all isdigit_char s)"

text \<open>The value of a string of decimal digits, read left to right.\<close>

definition decimal_value :: "string \<Rightarrow> int" where
  "decimal_value s = foldl (\<lambda>acc ch. 10 * acc + (int (of_char ch) - 48)) 0 s"

text \<open>
  \<^verbatim>\<open>int(s)\<close> on a string for which \<^verbatim>\<open>s.isdigit()\<close> holds, the only strings the program
  passes to it: the value when every character is a decimal digit, a \<^verbatim>\<open>ValueError\<close>
  otherwise.
\<close>

definition msg_int_literal :: "string \<Rightarrow> string" where
  "msg_int_literal s =
     ''invalid literal for int() with base 10: '' @ [CHR 0x27] @ s @ [CHR 0x27]"

definition py_int :: "string \<Rightarrow> error + int" where
  "py_int s =
     (if s \<noteq> [] \<and> list_all is_decimal s then Inr (decimal_value s)
      else Inl (ValueError (msg_int_literal s)))"

text \<open>\<^verbatim>\<open>sep.join(xs)\<close>.\<close>

fun py_join :: "string \<Rightarrow> string list \<Rightarrow> string" where
  "py_join sep [] = []"
| "py_join sep [x] = x"
| "py_join sep (x # y # ys) = x @ sep @ py_join sep (y # ys)"

text \<open>\<^verbatim>\<open>list(s)\<close>: the one-character strings of \<open>s\<close>.\<close>

definition py_list :: "string \<Rightarrow> string list" where
  "py_list s = map (\<lambda>ch. [ch]) s"

text \<open>
  The format \<^verbatim>\<open>f"{i:04d}"\<close>: the decimal digits, padded with zeros after the sign to a
  width of four.
\<close>

definition digit_char :: "nat \<Rightarrow> char" where
  "digit_char d = char_of (48 + d)"

fun digits_of :: "nat \<Rightarrow> string" where
  "digits_of n = (if n < 10 then [digit_char n] else digits_of (n div 10) @ [digit_char (n mod 10)])"

declare digits_of.simps [simp del]

definition zero_pad :: "nat \<Rightarrow> string \<Rightarrow> string" where
  "zero_pad width s = replicate (width - length s) (CHR ''0'') @ s"

definition format_04d :: "int \<Rightarrow> string" where
  "format_04d i =
     (if i < 0 then CHR ''-'' # zero_pad 3 (digits_of (nat (- i)))
      else zero_pad 4 (digits_of (nat i)))"

subsection \<open>The tables and \<^verbatim>\<open>validate_inputs\<close> (\<^verbatim>\<open>app.py\<close>, lines 16 to 29 and 97 to 121)\<close>

text \<open>A dict literal is the list of its items in the order written; a lookup is \<open>map_of\<close>.\<close>

definition COLOURS :: "(string \<times> string) list" where
  "COLOURS =
     [(''AT0001'', ''Black''),
      (''AT0002'', ''Blue''),
      (''AT0003'', ''White''),
      (''AT0004'', ''Pink'')]"

definition SERIES_BY_SKU :: "(string \<times> string list) list" where
  "SERIES_BY_SKU =
     [(''AT0003'', py_list ''AEIMQUY''),
      (''AT0002'', py_list ''BFJNRVZ''),
      (''AT0001'', py_list ''CGKOSW''),
      (''AT0004'', py_list ''DHLPTX'')]"

text \<open>
  The en dash (code point 8211) of the third message is written as its three UTF-8
  bytes.
\<close>

definition en_dash :: string where
  "en_dash = [CHR 0xE2, CHR 0x80, CHR 0x93]"

definition msg_colour :: string where
  "msg_colour = ''Invalid colour code. Choose one of the listed AT000X values.''"

definition msg_series :: "string \<Rightarrow> string list \<Rightarrow> string" where
  "msg_series color_code allowed_for_sku =
     ''Invalid series for '' @ color_code @ ''. Allowed: '' @ py_join '', '' allowed_for_sku"

definition msg_both :: string where
  "msg_both = ''Please provide both Start and End numbers (0001'' @ en_dash @ ''9999).''"

definition msg_four_digits :: string where
  "msg_four_digits = ''Numbers must be 4 digits, e.g., 0001, 0075, 0315.''"

definition msg_between :: string where
  "msg_between = ''Numbers must be between 0001 and 9999.''"

definition msg_end_before_start :: string where
  "msg_end_before_start = ''End number must be greater than or equal to Start number.''"

text \<open>
  The checks in the order of the source. \<^verbatim>\<open>(series or "")\<close> is \<open>series\<close> itself on a string.
  \<^verbatim>\<open>SERIES_BY_SKU[color_code]\<close> raises \<^verbatim>\<open>KeyError\<close> on a missing key.
\<close>

definition validate_inputs ::
  "string \<Rightarrow> string \<Rightarrow> string \<Rightarrow> string \<Rightarrow> error + string \<times> int \<times> int" where
  "validate_inputs color_code series start_num end_num =
     (if map_of COLOURS color_code = None then Inl (ValueError msg_colour)
      else
        (let series = py_upper (py_strip series)
         in case map_of SERIES_BY_SKU color_code of
              None \<Rightarrow> Inl (KeyError color_code)
            | Some allowed_for_sku \<Rightarrow>
                if series \<notin> set allowed_for_sku
                then Inl (ValueError (msg_series color_code allowed_for_sku))
                else if \<not> (start_num \<noteq> [] \<and> end_num \<noteq> []) then Inl (ValueError msg_both)
                else if length start_num \<noteq> 4 \<or> length end_num \<noteq> 4
                        \<or> \<not> py_isdigit start_num \<or> \<not> py_isdigit end_num
                then Inl (ValueError msg_four_digits)
                else
                  (case py_int start_num of
                     Inl err \<Rightarrow> Inl err
                   | Inr s \<Rightarrow>
                       (case py_int end_num of
                          Inl err \<Rightarrow> Inl err
                        | Inr e \<Rightarrow>
                            if \<not> (1 \<le> s \<and> s \<le> 9999 \<and> 1 \<le> e \<and> e \<le> 9999)
                            then Inl (ValueError msg_between)
                            else if e < s then Inl (ValueError msg_end_before_start)
                            else Inr (series, s, e)))))"

subsection \<open>The POST branch of \<^verbatim>\<open>index\<close> (\<^verbatim>\<open>app.py\<close>, lines 125 to 158)\<close>

text \<open>
  The loop of lines 143 to 147 over the numbers of \<^verbatim>\<open>range(start_i, end_i + 1)\<close>: one label
  and one \<^verbatim>\<open>showPage\<close> per number. An exception of \<^verbatim>\<open>draw_single_label\<close> ends the loop.
\<close>

fun label_pages ::
  "encoder \<Rightarrow> font_metrics \<Rightarrow> string \<Rightarrow> string \<Rightarrow> string \<Rightarrow> canvas \<Rightarrow> int list \<Rightarrow> error + canvas" where
  "label_pages enc sw color_code series color_name c [] = Inr c"
| "label_pages enc sw color_code series color_name c (i # rest) =
     (let num_str = format_04d i;
          barcode_value = color_code @ ''-'' @ series @ num_str
      in case draw_single_label enc sw c barcode_value color_name of
           Inl err \<Rightarrow> Inl err
         | Inr c' \<Rightarrow> label_pages enc sw color_code series color_name (c' @ [ShowPage]) rest)"

text \<open>
  The handler answers a \<^verbatim>\<open>ValueError\<close> of the validation with a redirect that carries the
  message, and a successful run with the document and its file name.
\<close>

datatype response = Redirect string | SendFile canvas string

definition index_post ::
  "encoder \<Rightarrow> font_metrics \<Rightarrow> string \<Rightarrow> string \<Rightarrow> string \<Rightarrow> string \<Rightarrow> error + response" where
  "index_post enc sw form_color_code form_series form_start_num form_end_num =
     (let color_code = py_strip form_color_code;
          series = py_strip form_series;
          start_num = py_strip form_start_num;
          end_num = py_strip form_end_num
      in case validate_inputs color_code series start_num end_num of
           Inl (ValueError msg) \<Rightarrow> Inr (Redirect msg)
         | Inl err \<Rightarrow> Inl err
         | Inr (series, start_i, end_i) \<Rightarrow>
             (case map_of COLOURS color_code of
                None \<Rightarrow> Inl (KeyError color_code)
              | Some color_name \<Rightarrow>
                  (case label_pages enc sw color_code series color_name [] [start_i..end_i] of
                     Inl err \<Rightarrow> Inl err
                   | Inr c \<Rightarrow>
                       Inr (SendFile c
                              (''barcodes_'' @ color_code @ ''_'' @ series @ format_04d start_i
                               @ ''-'' @ series @ format_04d end_i @ ''.pdf'')))))"

subsection \<open>Reading a canvas\<close>

text \<open>The texts of the symbols drawn on a canvas, in drawing order, and its page count.\<close>

fun barcode_texts :: "canvas \<Rightarrow> string list" where
  "barcode_texts [] = []"
| "barcode_texts (DrawOn bc x y # ops) = barcode_value bc # barcode_texts ops"
| "barcode_texts (other # ops) = barcode_texts ops"

fun page_count :: "canvas \<Rightarrow> nat" where
  "page_count [] = 0"
| "page_count (ShowPage # ops) = Suc (page_count ops)"
| "page_count (other # ops) = page_count ops"

section \<open>Properties\<close>

lemma MM_TO_PT_pos: "0 < MM_TO_PT"
  by (simp add: MM_TO_PT_def)

subsection \<open>Values of the layout constants\<close>

lemma usable_w_val: "usable_w = 68 * MM_TO_PT"
  by (simp add: usable_w_def PAGE_W_def left_margin_def right_margin_def outer_margin_mm_def)

lemma X_MIN_PT_val: "X_MIN_PT = 0.30 * MM_TO_PT"
  by (simp add: X_MIN_PT_def X_MIN_MM_def)

lemma quiet_each_side_val: "quiet_each_side = 3 * MM_TO_PT"
  using MM_TO_PT_pos by (simp add: quiet_each_side_def QUIET_X_MULT_def X_MIN_PT_val max_def)

lemma usable_h_val: "usable_h = 27.2 * MM_TO_PT - 8"
  by (simp add: usable_h_def PAGE_H_def top_margin_def bottom_margin_def text_band_h_def
      font_size_def gap_above_text_def)

lemma bar_height_le: "bar_height \<le> usable_h"
  by (simp add: bar_height_def)

lemma safety_quiet_val: "max (0.1 * MM_TO_PT) (0.05 * (usable_w / 2.0)) = 1.7 * MM_TO_PT"
  using MM_TO_PT_pos by (simp add: usable_w_val max_def)

lemma available_val: "max (usable_w - 2 * (1.7 * MM_TO_PT)) 1 = 64.6 * MM_TO_PT"
  by (simp add: usable_w_val MM_TO_PT_def max_def)

lemma overflow_nonzero:
  assumes "usable_w < mc * X_MIN_PT + 2 * quiet_each_side"
  shows "0 < mc"
proof -
  have "68 * MM_TO_PT < mc * (0.3 * MM_TO_PT) + 2 * (3 * MM_TO_PT)"
    using assms by (simp add: usable_w_val X_MIN_PT_val quiet_each_side_val)
  then have "62 * MM_TO_PT < (mc * 0.3) * MM_TO_PT" by (simp add: algebra_simps)
  then have "62 < mc * 0.3" using MM_TO_PT_pos by (simp only: mult_less_cancel_right_pos)
  then show ?thesis by simp
qed

lemma choose_bar_width_overflow:
  assumes "usable_w < mc * X_MIN_PT + 2 * quiet_each_side"
  shows "choose_bar_width usable_w mc = Inr (64.6 * MM_TO_PT / mc, 1.7 * MM_TO_PT)"
proof -
  have nz: "mc \<noteq> 0" using overflow_nonzero [OF assms] by simp
  show ?thesis
    using assms nz unfolding choose_bar_width_def scale_to_fit_def Let_def
      safety_quiet_val available_val
    by simp
qed

lemma choose_bar_width_fits:
  assumes "mc * X_MIN_PT + 2 * quiet_each_side \<le> w"
  shows "choose_bar_width w mc = Inr (X_MIN_PT, quiet_each_side)"
  using assms by (simp add: choose_bar_width_def)

lemma draw_single_label_sized:
  assumes "choose_bar_width usable_w (module_count_of enc t) = Inr (bw, q)"
  shows "draw_single_label enc sw c t n =
     Inr (c @ [DrawOn \<lparr>barcode_value = t, barHeight = bar_height, barWidth = bw,
                        humanReadable = False\<rparr>
                 (left_margin + q) (bottom_margin + text_band_h + (usable_h - bar_height) / 2),
               SetFillColor ''black'',
               SetFont font_name font_size,
               DrawString ((PAGE_W - sw (t @ '' | '' @ n) font_name font_size) / 2)
                 bottom_margin (t @ '' | '' @ n)])"
  using assms by (simp add: draw_single_label_def Let_def)

lemma choose_bar_width_total:
  "\<exists>bw q. choose_bar_width usable_w mc = Inr (bw, q)"
proof (cases "mc * X_MIN_PT + 2 * quiet_each_side \<le> usable_w")
  case True
  then show ?thesis by (simp add: choose_bar_width_fits)
next
  case False
  then have "usable_w < mc * X_MIN_PT + 2 * quiet_each_side" by simp
  from choose_bar_width_overflow [OF this] show ?thesis by blast
qed

lemma bar_height_val: "bar_height = 14 * MM_TO_PT"
  by (simp add: bar_height_def usable_h_val BAR_HEIGHT_MM_def MM_TO_PT_def min_def)

lemma origin_y_val:
  "bottom_margin + text_band_h + (usable_h - bar_height) / 2 = 8.4 * MM_TO_PT + 4"
proof -
  have "(usable_h - bar_height) / 2 = 6.6 * MM_TO_PT - 4"
    unfolding usable_h_val bar_height_val by (simp add: diff_divide_distrib)
  then show ?thesis
    unfolding bottom_margin_def text_band_h_def font_size_def gap_above_text_def
    by linarith
qed

subsection \<open>The two branches of the sizing rule\<close>

text \<open>
  Claim C2. When the module count times 0.30mm plus twice the larger of ten modules and 2mm
  is at most the usable width, the bar width chosen is exactly 0.30mm and the symbol is
  drawn after the full quiet zone, the larger of ten modules and 2mm, from the left margin.
\<close>

theorem fits_case_min_module:
  assumes "module_count_of enc t * (0.30 * MM_TO_PT)
             + 2 * max (10 * (0.30 * MM_TO_PT)) (2 * MM_TO_PT) \<le> usable_w"
  shows "choose_bar_width usable_w (module_count_of enc t)
           = Inr (0.30 * MM_TO_PT, max (10 * (0.30 * MM_TO_PT)) (2 * MM_TO_PT))
         \<and> (\<exists>y caption.
              draw_single_label enc sw c t n =
                Inr (c @ DrawOn \<lparr>barcode_value = t, barHeight = bar_height,
                                  barWidth = 0.30 * MM_TO_PT, humanReadable = False\<rparr>
                           (left_margin + max (10 * (0.30 * MM_TO_PT)) (2 * MM_TO_PT)) y
                         # caption))"
proof -
  have x: "X_MIN_PT = 0.30 * MM_TO_PT" by (rule X_MIN_PT_val)
  have qz: "quiet_each_side = max (10 * (0.30 * MM_TO_PT)) (2 * MM_TO_PT)"
    by (simp add: quiet_each_side_def QUIET_X_MULT_def X_MIN_PT_val)
  have fits: "module_count_of enc t * X_MIN_PT + 2 * quiet_each_side \<le> usable_w"
    using assms unfolding x qz .
  have sized: "choose_bar_width usable_w (module_count_of enc t) = Inr (X_MIN_PT, quiet_each_side)"
    using fits by (rule choose_bar_width_fits)
  show ?thesis
  proof (intro conjI exI)
    show "choose_bar_width usable_w (module_count_of enc t)
           = Inr (0.30 * MM_TO_PT, max (10 * (0.30 * MM_TO_PT)) (2 * MM_TO_PT))"
      using sized unfolding x qz .
    show "draw_single_label enc sw c t n =
      Inr (c @ DrawOn \<lparr>barcode_value = t, barHeight = bar_height,
                        barWidth = 0.30 * MM_TO_PT, humanReadable = False\<rparr>
                 (left_margin + max (10 * (0.30 * MM_TO_PT)) (2 * MM_TO_PT))
                 (bottom_margin + text_band_h + (usable_h - bar_height) / 2)
               # [SetFillColor ''black'', SetFont font_name font_size,
                  DrawString ((PAGE_W - sw (t @ '' | '' @ n) font_name font_size) / 2)
                    bottom_margin (t @ '' | '' @ n)])"
      using draw_single_label_sized [OF sized, of sw c n] unfolding x qz by simp
  qed
qed

theorem fits_case_min_module_witness:
  "module_count_of (\<lambda>bc. 203) ''AT0001-C0001'' * (0.30 * MM_TO_PT)
       + 2 * max (10 * (0.30 * MM_TO_PT)) (2 * MM_TO_PT) \<le> usable_w
   \<and> choose_bar_width usable_w (module_count_of (\<lambda>bc. 203) ''AT0001-C0001'')
           = Inr (0.30 * MM_TO_PT, max (10 * (0.30 * MM_TO_PT)) (2 * MM_TO_PT))
   \<and> (\<exists>y caption.
         draw_single_label (\<lambda>bc. 203) (\<lambda>s f z. 50) [] ''AT0001-C0001'' ''Black'' =
           Inr ([] @ DrawOn \<lparr>barcode_value = ''AT0001-C0001'', barHeight = bar_height,
                              barWidth = 0.30 * MM_TO_PT, humanReadable = False\<rparr>
                       (left_margin + max (10 * (0.30 * MM_TO_PT)) (2 * MM_TO_PT)) y
                     # caption))"
proof -
  have h: "module_count_of (\<lambda>bc. 203) ''AT0001-C0001'' * (0.30 * MM_TO_PT)
       + 2 * max (10 * (0.30 * MM_TO_PT)) (2 * MM_TO_PT) \<le> usable_w"
    by (simp add: module_count_of_def usable_w_val MM_TO_PT_def)
  show ?thesis
    by (rule conjI [OF h fits_case_min_module [OF h]])
qed

text \<open>
  Claim C1, as amended. In the overflow case (the width at the minimum module exceeds the
  usable width) the label is drawn with the safety quiet zone \<open>q\<close>, the larger of 0.1mm and
  5 percent of half the usable width, on each side, and with a bar width \<open>bw\<close> such that
  the symbol and its two quiet zones fill the usable width exactly (in exact arithmetic).
  The bar width is below the minimum module width of 0.30mm exactly when the symbol at the
  minimum module would not fit between the two safety quiet zones; it is not below it for
  every overflowing module count.
\<close>

theorem overflow_fills_usable_width:
  assumes "usable_w < module_count_of enc t * X_MIN_PT + 2 * quiet_each_side"
  shows "\<exists>bw q y caption.
           draw_single_label enc sw c t n =
             Inr (c @ DrawOn \<lparr>barcode_value = t, barHeight = bar_height, barWidth = bw,
                               humanReadable = False\<rparr> (left_margin + q) y # caption)
           \<and> q = max (0.1 * MM_TO_PT) (0.05 * (usable_w / 2))
           \<and> bw * module_count_of enc t + 2 * q = usable_w
           \<and> (bw < X_MIN_PT) = (usable_w < module_count_of enc t * X_MIN_PT + 2 * q)"
proof -
  let ?mc = "module_count_of enc t"
  let ?bw = "64.6 * MM_TO_PT / ?mc"
  let ?q = "1.7 * MM_TO_PT"
  have pos: "0 < ?mc" using assms by (rule overflow_nonzero)
  have sized: "choose_bar_width usable_w ?mc = Inr (?bw, ?q)"
    using assms by (rule choose_bar_width_overflow)
  have q: "?q = max (0.1 * MM_TO_PT) (0.05 * (usable_w / 2))"
    using safety_quiet_val by simp
  have fill: "?bw * ?mc + 2 * ?q = usable_w"
    using pos by (simp add: usable_w_val)
  have "(?bw < X_MIN_PT) = (64.6 * MM_TO_PT < X_MIN_PT * ?mc)"
    by (rule pos_divide_less_eq [OF pos])
  also have "\<dots> = (usable_w < ?mc * X_MIN_PT + 2 * ?q)"
    unfolding usable_w_val by (auto simp: field_simps)
  finally have narrow: "(?bw < X_MIN_PT) = (usable_w < ?mc * X_MIN_PT + 2 * ?q)" .
  show ?thesis
  proof (intro exI conjI)
    show "draw_single_label enc sw c t n =
      Inr (c @ DrawOn \<lparr>barcode_value = t, barHeight = bar_height, barWidth = ?bw,
                        humanReadable = False\<rparr> (left_margin + ?q)
                 (bottom_margin + text_band_h + (usable_h - bar_height) / 2)
               # [SetFillColor ''black'', SetFont font_name font_size,
                  DrawString ((PAGE_W - sw (t @ '' | '' @ n) font_name font_size) / 2)
                    bottom_margin (t @ '' | '' @ n)])"
      by (simp add: draw_single_label_sized [OF sized])
    show "?q = max (0.1 * MM_TO_PT) (0.05 * (usable_w / 2))" by (rule q)
    show "?bw * ?mc + 2 * ?q = usable_w" by (rule fill)
    show "(?bw < X_MIN_PT) = (usable_w < ?mc * X_MIN_PT + 2 * ?q)" by (rule narrow)
  qed
qed

theorem overflow_fills_usable_width_witness:
  "usable_w < module_count_of (\<lambda>bc. 220) ''AT0004-D0001'' * X_MIN_PT + 2 * quiet_each_side
   \<and> (\<exists>bw q y caption.
           draw_single_label (\<lambda>bc. 220) (\<lambda>s f z. 50) [ShowPage] ''AT0004-D0001'' ''Pink'' =
             Inr ([ShowPage] @ DrawOn \<lparr>barcode_value = ''AT0004-D0001'', barHeight = bar_height,
                               barWidth = bw, humanReadable = False\<rparr> (left_margin + q) y # caption)
           \<and> q = max (0.1 * MM_TO_PT) (0.05 * (usable_w / 2))
           \<and> bw * module_count_of (\<lambda>bc. 220) ''AT0004-D0001'' + 2 * q = usable_w
           \<and> (bw < X_MIN_PT)
               = (usable_w < module_count_of (\<lambda>bc. 220) ''AT0004-D0001'' * X_MIN_PT + 2 * q))"
proof -
  have h: "usable_w < module_count_of (\<lambda>bc. 220) ''AT0004-D0001'' * X_MIN_PT
             + 2 * quiet_each_side"
    by (simp add: module_count_of_def usable_w_val X_MIN_PT_val quiet_each_side_val MM_TO_PT_def)
  show ?thesis
    by (rule conjI [OF h overflow_fills_usable_width [OF h]])
qed

text \<open>
  At a module count of 214 the width at the minimum module exceeds the usable width, and
  the bar width chosen, 64.6mm / 214, is not below 0.30mm.
\<close>

theorem overflow_bar_width_counterexample:
  "usable_w < 214 * X_MIN_PT + 2 * quiet_each_side
   \<and> choose_bar_width usable_w 214 = Inr (64.6 * MM_TO_PT / 214, 1.7 * MM_TO_PT)
   \<and> \<not> (64.6 * MM_TO_PT / 214 < X_MIN_PT)"
proof -
  have over: "usable_w < 214 * X_MIN_PT + 2 * quiet_each_side"
    by (simp add: usable_w_val X_MIN_PT_val quiet_each_side_val MM_TO_PT_def)
  have "\<not> (64.6 * MM_TO_PT / 214 < X_MIN_PT)"
    by (simp add: X_MIN_PT_val MM_TO_PT_def)
  with over choose_bar_width_overflow [OF over] show ?thesis by simp
qed

text \<open>
  Claim C9. In the overflow case, for any usable width \<open>w\<close> and any positive module count,
  the width available for the bars is the larger of \<open>w - 2 * q\<close> and one point, and the bar
  width, its quotient by the module count, is positive. Where the clamp is active
  (\<open>w - 2 * q < 1\<close>) the symbol and its quiet zones take \<open>1 + 2 * q\<close>, more than \<open>w\<close>;
  otherwise they take \<open>w\<close>.
\<close>

theorem overflow_clamp_positive:
  assumes "0 < mc" and "w < mc * X_MIN_PT + 2 * quiet_each_side"
  shows "\<exists>bw q. choose_bar_width w mc = Inr (bw, q)
           \<and> q = max (0.1 * MM_TO_PT) (0.05 * (w / 2))
           \<and> bw = max (w - 2 * q) 1 / mc
           \<and> 0 < bw
           \<and> (if w - 2 * q < 1 then bw * mc + 2 * q = 1 + 2 * q \<and> w < bw * mc + 2 * q
               else bw * mc + 2 * q = w)"
proof -
  let ?q = "max (0.1 * MM_TO_PT) (0.05 * (w / 2))"
  let ?bw = "max (w - 2 * ?q) 1 / mc"
  have sized: "choose_bar_width w mc = Inr (?bw, ?q)"
    using assms by (simp add: choose_bar_width_def scale_to_fit_def Let_def)
  have "0 < max (w - 2 * ?q) 1" by simp
  then have pos: "0 < ?bw" using assms(1) by (rule divide_pos_pos)
  have prod: "?bw * mc = max (w - 2 * ?q) 1" using assms(1) by simp
  have tot: "if w - 2 * ?q < 1 then ?bw * mc + 2 * ?q = 1 + 2 * ?q \<and> w < ?bw * mc + 2 * ?q
               else ?bw * mc + 2 * ?q = w"
    unfolding prod by (simp add: max_def)
  show ?thesis using sized pos tot by blast
qed

theorem overflow_clamp_positive_witness:
  "(0::real) < 100 \<and> (1 / 2) < 100 * X_MIN_PT + 2 * quiet_each_side
   \<and> choose_bar_width (1 / 2) 100 = Inr (1 / 100, 0.1 * MM_TO_PT)
   \<and> (1 / 2 :: real) < 1 / 100 * 100 + 2 * (0.1 * MM_TO_PT)"
proof -
  have h1: "(0::real) < 100" by simp
  have h2: "(1 / 2) < 100 * X_MIN_PT + 2 * quiet_each_side"
    by (simp add: X_MIN_PT_val quiet_each_side_val MM_TO_PT_def)
  have q: "max (0.1 * MM_TO_PT) (0.05 * ((1 / 2) / 2)) = 0.1 * MM_TO_PT"
    by (simp add: MM_TO_PT_def)
  have a: "max (1 / 2 - 2 * (0.1 * MM_TO_PT)) 1 = 1"
    by (simp add: MM_TO_PT_def)
  from overflow_clamp_positive [OF h1 h2]
  obtain bw q' where sized: "choose_bar_width (1 / 2) 100 = Inr (bw, q')"
    and qv: "q' = max (0.1 * MM_TO_PT) (0.05 * ((1 / 2) / 2))"
    and bwv: "bw = max (1 / 2 - 2 * q') 1 / 100"
    by blast
  have q': "q' = 0.1 * MM_TO_PT" using qv q by simp
  have "bw = 1 / 100" using bwv a unfolding q' by simp
  with sized q' have "choose_bar_width (1 / 2) 100 = Inr (1 / 100, 0.1 * MM_TO_PT)"
    by simp
  moreover have "(1 / 2 :: real) < 1 / 100 * 100 + 2 * (0.1 * MM_TO_PT)"
    by (simp add: MM_TO_PT_def)
  ultimately show ?thesis using h1 h2 by simp
qed

subsection \<open>Bar height and vertical placement\<close>

lemma draw_single_label_total:
  "\<exists>bw q. draw_single_label enc sw c t n =
     Inr (c @ [DrawOn \<lparr>barcode_value = t, barHeight = bar_height, barWidth = bw,
                        humanReadable = False\<rparr>
                 (left_margin + q) (bottom_margin + text_band_h + (usable_h - bar_height) / 2),
               SetFillColor ''black'',
               SetFont font_name font_size,
               DrawString ((PAGE_W - sw (t @ '' | '' @ n) font_name font_size) / 2)
                 bottom_margin (t @ '' | '' @ n)])"
proof -
  obtain bw q where "choose_bar_width usable_w (module_count_of enc t) = Inr (bw, q)"
    using choose_bar_width_total by blast
  from draw_single_label_sized [OF this] show ?thesis by blast
qed

text \<open>
  Claim C3. For every text, colour name, encoder and canvas, the symbol is drawn at the
  height \<open>bottom_margin + text_band_h + (usable_h - bar_height) / 2\<close> with a bar height of
  the smaller of the usable height and 14mm; it starts at or above the top of the caption
  band and ends at or below the top margin.
\<close>

theorem barcode_vertically_centred:
  "\<exists>bc x caption.
     draw_single_label enc sw c t n =
       Inr (c @ DrawOn bc x (bottom_margin + text_band_h + (usable_h - bar_height) / 2) # caption)
     \<and> barHeight bc = bar_height
     \<and> bar_height = min usable_h (14 * MM_TO_PT)
     \<and> bottom_margin + text_band_h
          \<le> bottom_margin + text_band_h + (usable_h - bar_height) / 2
     \<and> (bottom_margin + text_band_h + (usable_h - bar_height) / 2) + bar_height
          \<le> bottom_margin + text_band_h + usable_h
     \<and> bottom_margin + text_band_h + usable_h = PAGE_H - top_margin"
proof -
  obtain bw q where drawn: "draw_single_label enc sw c t n =
     Inr (c @ [DrawOn \<lparr>barcode_value = t, barHeight = bar_height, barWidth = bw,
                        humanReadable = False\<rparr>
                 (left_margin + q) (bottom_margin + text_band_h + (usable_h - bar_height) / 2),
               SetFillColor ''black'',
               SetFont font_name font_size,
               DrawString ((PAGE_W - sw (t @ '' | '' @ n) font_name font_size) / 2)
                 bottom_margin (t @ '' | '' @ n)])"
    using draw_single_label_total by blast
  have le: "bar_height \<le> usable_h" by (rule bar_height_le)
  show ?thesis
  proof (intro exI conjI)
    show "draw_single_label enc sw c t n =
       Inr (c @ DrawOn \<lparr>barcode_value = t, barHeight = bar_height, barWidth = bw,
                        humanReadable = False\<rparr> (left_margin + q)
              (bottom_margin + text_band_h + (usable_h - bar_height) / 2)
            # [SetFillColor ''black'', SetFont font_name font_size,
               DrawString ((PAGE_W - sw (t @ '' | '' @ n) font_name font_size) / 2)
                 bottom_margin (t @ '' | '' @ n)])"
      using drawn by simp
    show "barHeight \<lparr>barcode_value = t, barHeight = bar_height, barWidth = bw,
                        humanReadable = False\<rparr> = bar_height" by simp
    show "bar_height = min usable_h (14 * MM_TO_PT)"
      by (simp add: bar_height_def BAR_HEIGHT_MM_def)
    show "bottom_margin + text_band_h
          \<le> bottom_margin + text_band_h + (usable_h - bar_height) / 2"
      using le by simp
    show "(bottom_margin + text_band_h + (usable_h - bar_height) / 2) + bar_height
          \<le> bottom_margin + text_band_h + usable_h"
      using le by (simp add: field_simps)
    show "bottom_margin + text_band_h + usable_h = PAGE_H - top_margin"
      by (simp add: usable_h_def)
  qed
qed

theorem barcode_vertically_centred_witness:
  "(\<exists>bc x caption.
     draw_single_label (\<lambda>bc. 203) (\<lambda>s f z. 50) [] ''AT0004-D0001'' ''Pink'' =
       Inr ([] @ DrawOn bc x (bottom_margin + text_band_h + (usable_h - bar_height) / 2) # caption)
     \<and> barHeight bc = bar_height
     \<and> bar_height = min usable_h (14 * MM_TO_PT)
     \<and> bottom_margin + text_band_h
          \<le> bottom_margin + text_band_h + (usable_h - bar_height) / 2
     \<and> (bottom_margin + text_band_h + (usable_h - bar_height) / 2) + bar_height
          \<le> bottom_margin + text_band_h + usable_h
     \<and> bottom_margin + text_band_h + usable_h = PAGE_H - top_margin)
   \<and> bottom_margin + text_band_h + (usable_h - bar_height) / 2 = 8.4 * MM_TO_PT + 4"
proof -
  have "bottom_margin + text_band_h + (usable_h - bar_height) / 2 = 8.4 * MM_TO_PT + 4"
    by (rule origin_y_val)
  then show ?thesis
    by (rule conjI [OF barcode_vertically_centred])
qed

text \<open>
  Claim C8. The quiet zone per side is the larger of ten modules of 0.30mm and 2mm; the bar
  height is the smaller of the usable height and 14mm, hence at most the usable height, and
  it is the bar height of the symbol drawn for every request.
\<close>

theorem quiet_zone_and_bar_height:
  "quiet_each_side = max (10 * (0.30 * MM_TO_PT)) (2 * MM_TO_PT)
   \<and> bar_height = min usable_h (14 * MM_TO_PT)
   \<and> bar_height \<le> usable_h
   \<and> (\<exists>bw x y caption.
        draw_single_label enc sw c t n =
          Inr (c @ DrawOn \<lparr>barcode_value = t, barHeight = min usable_h (14 * MM_TO_PT),
                            barWidth = bw, humanReadable = False\<rparr> x y # caption))"
proof -
  have bh: "bar_height = min usable_h (14 * MM_TO_PT)"
    by (simp add: bar_height_def BAR_HEIGHT_MM_def)
  obtain bw q where drawn: "draw_single_label enc sw c t n =
     Inr (c @ [DrawOn \<lparr>barcode_value = t, barHeight = bar_height, barWidth = bw,
                        humanReadable = False\<rparr>
                 (left_margin + q) (bottom_margin + text_band_h + (usable_h - bar_height) / 2),
               SetFillColor ''black'',
               SetFont font_name font_size,
               DrawString ((PAGE_W - sw (t @ '' | '' @ n) font_name font_size) / 2)
                 bottom_margin (t @ '' | '' @ n)])"
    using draw_single_label_total by blast
  show ?thesis
  proof (intro conjI exI)
    show "quiet_each_side = max (10 * (0.30 * MM_TO_PT)) (2 * MM_TO_PT)"
      by (simp add: quiet_each_side_def QUIET_X_MULT_def X_MIN_PT_val)
    show "bar_height = min usable_h (14 * MM_TO_PT)" by (rule bh)
    show "bar_height \<le> usable_h" by (rule bar_height_le)
    show "draw_single_label enc sw c t n =
          Inr (c @ DrawOn \<lparr>barcode_value = t, barHeight = min usable_h (14 * MM_TO_PT),
                            barWidth = bw, humanReadable = False\<rparr> (left_margin + q)
                 (bottom_margin + text_band_h + (usable_h - bar_height) / 2)
            # [SetFillColor ''black'', SetFont font_name font_size,
               DrawString ((PAGE_W - sw (t @ '' | '' @ n) font_name font_size) / 2)
                 bottom_margin (t @ '' | '' @ n)])"
      using drawn unfolding bh [symmetric] by simp
  qed
qed

theorem quiet_zone_and_bar_height_witness:
  "(quiet_each_side = max (10 * (0.30 * MM_TO_PT)) (2 * MM_TO_PT)
    \<and> bar_height = min usable_h (14 * MM_TO_PT)
    \<and> bar_height \<le> usable_h
    \<and> (\<exists>bw x y caption.
        draw_single_label (\<lambda>bc. 220) (\<lambda>s f z. 50) [] ''AT0002-B0042'' ''Blue'' =
          Inr ([] @ DrawOn \<lparr>barcode_value = ''AT0002-B0042'',
                             barHeight = min usable_h (14 * MM_TO_PT),
                             barWidth = bw, humanReadable = False\<rparr> x y # caption)))
   \<and> quiet_each_side = 3 * MM_TO_PT \<and> bar_height = 14 * MM_TO_PT"
proof -
  have "quiet_each_side = 3 * MM_TO_PT \<and> bar_height = 14 * MM_TO_PT"
    by (simp add: quiet_each_side_val bar_height_val)
  then show ?thesis
    by (rule conjI [OF quiet_zone_and_bar_height])
qed

subsection \<open>The two copies of the layout routine\<close>

text \<open>
  Claim C7. The copy of \<^verbatim>\<open>draw_single_label\<close> in \<^verbatim>\<open>make_custom_barcodes.py\<close> and the one in
  \<^verbatim>\<open>app.py\<close> make the same drawing calls, with the same bar width, bar height, quiet zone,
  origin and caption placement, for every text, colour name, canvas, encoder and font
  metrics; the module constants of the two files agree.
\<close>

theorem script_label_same_geometry:
  "MM_TO_PT_script = MM_TO_PT \<and> PAGE_W_script = PAGE_W \<and> PAGE_H_script = PAGE_H
   \<and> draw_single_label_script enc sw c t n = draw_single_label enc sw c t n"
proof -
  have mm: "MM_TO_PT_script = MM_TO_PT" by (simp add: MM_TO_PT_script_def MM_TO_PT_def)
  have pw: "PAGE_W_script = PAGE_W" by (simp add: PAGE_W_script_def PAGE_W_def mm)
  have ph: "PAGE_H_script = PAGE_H" by (simp add: PAGE_H_script_def PAGE_H_def mm)
  have "draw_single_label_script enc sw c t n = draw_single_label enc sw c t n"
    unfolding draw_single_label_script_def draw_single_label_def module_count_of_def
      choose_bar_width_def scale_to_fit_def Let_def mm pw ph
      usable_w_def usable_h_def left_margin_def right_margin_def top_margin_def
      bottom_margin_def outer_margin_mm_def text_band_h_def font_size_def font_name_def
      gap_above_text_def X_MIN_PT_def X_MIN_MM_def QUIET_X_MULT_def quiet_each_side_def
      bar_height_def BAR_HEIGHT_MM_def
    by simp
  with mm pw ph show ?thesis by simp
qed

theorem script_label_same_geometry_witness:
  "draw_single_label_script (\<lambda>bc. 203) (\<lambda>s f z. 50) [] ''AT0004-D0310'' ''Pink''
     = draw_single_label (\<lambda>bc. 203) (\<lambda>s f z. 50) [] ''AT0004-D0310'' ''Pink''
   \<and> draw_single_label (\<lambda>bc. 203) (\<lambda>s f z. 50) [] ''AT0004-D0310'' ''Pink''
     = Inr [DrawOn \<lparr>barcode_value = ''AT0004-D0310'', barHeight = 14 * MM_TO_PT,
                     barWidth = 0.30 * MM_TO_PT, humanReadable = False\<rparr>
              (4 * MM_TO_PT) (8.4 * MM_TO_PT + 4),
            SetFillColor ''black'',
            SetFont ''Helvetica'' 8,
            DrawString ((70 * MM_TO_PT - 50) / 2) (1 * MM_TO_PT) ''AT0004-D0310 | Pink'']"
proof -
  have fits: "module_count_of (\<lambda>bc. 203) ''AT0004-D0310'' * X_MIN_PT + 2 * quiet_each_side
                \<le> usable_w"
    by (simp add: module_count_of_def usable_w_val X_MIN_PT_val quiet_each_side_val MM_TO_PT_def)
  have "draw_single_label (\<lambda>bc. 203) (\<lambda>s f z. 50) [] ''AT0004-D0310'' ''Pink''
     = Inr [DrawOn \<lparr>barcode_value = ''AT0004-D0310'', barHeight = 14 * MM_TO_PT,
                     barWidth = 0.30 * MM_TO_PT, humanReadable = False\<rparr>
              (4 * MM_TO_PT) (8.4 * MM_TO_PT + 4),
            SetFillColor ''black'',
            SetFont ''Helvetica'' 8,
            DrawString ((70 * MM_TO_PT - 50) / 2) (1 * MM_TO_PT) ''AT0004-D0310 | Pink'']"
    unfolding draw_single_label_sized [OF choose_bar_width_fits [OF fits]] origin_y_val
    by (simp add: bar_height_val X_MIN_PT_val quiet_each_side_val left_margin_def
        outer_margin_mm_def bottom_margin_def font_size_def font_name_def PAGE_W_def)
  with script_label_same_geometry [of "\<lambda>bc. 203" "\<lambda>s f z. 50" "[]" "''AT0004-D0310''" "''Pink''"]
  show ?thesis by simp
qed

subsection \<open>Validation\<close>

lemma py_int_error: "py_int s = Inl err \<Longrightarrow> err = ValueError (msg_int_literal s)"
  by (auto simp: py_int_def split: if_splits)

lemma py_int_decimal:
  "s \<noteq> [] \<Longrightarrow> list_all is_decimal s \<Longrightarrow> py_int s = Inr (decimal_value s)"
  by (simp add: py_int_def)

lemma py_isdigit_decimal: "s \<noteq> [] \<Longrightarrow> list_all is_decimal s \<Longrightarrow> py_isdigit s"
  by (auto simp: py_isdigit_def isdigit_char_def list_all_iff)

lemma colours_keys:
  "(map_of COLOURS cc \<noteq> None)
     = (cc = ''AT0001'' \<or> cc = ''AT0002'' \<or> cc = ''AT0003'' \<or> cc = ''AT0004'')"
  by (simp add: COLOURS_def)

lemma series_keys:
  "(map_of SERIES_BY_SKU cc \<noteq> None)
     = (cc = ''AT0001'' \<or> cc = ''AT0002'' \<or> cc = ''AT0003'' \<or> cc = ''AT0004'')"
  by (auto simp: SERIES_BY_SKU_def)

lemma series_known:
  assumes "map_of COLOURS cc \<noteq> None"
  shows "\<exists>allowed. map_of SERIES_BY_SKU cc = Some allowed"
proof -
  have "map_of SERIES_BY_SKU cc \<noteq> None" using assms unfolding colours_keys series_keys .
  then show ?thesis by blast
qed

lemma validate_inputs_colour:
  "map_of COLOURS cc = None \<Longrightarrow> validate_inputs cc se st en = Inl (ValueError msg_colour)"
  by (simp add: validate_inputs_def)

lemma validate_inputs_series:
  assumes "map_of COLOURS cc \<noteq> None" and "map_of SERIES_BY_SKU cc = Some allowed"
    and "py_upper (py_strip se) \<notin> set allowed"
  shows "validate_inputs cc se st en = Inl (ValueError (msg_series cc allowed))"
  using assms by (auto simp: validate_inputs_def Let_def)

lemma validate_inputs_numbers:
  assumes "map_of COLOURS cc \<noteq> None" and "map_of SERIES_BY_SKU cc = Some allowed"
    and "py_upper (py_strip se) \<in> set allowed"
  shows "validate_inputs cc se start_num end_num =
                (if \<not> (start_num \<noteq> [] \<and> end_num \<noteq> []) then Inl (ValueError msg_both)
                else if length start_num \<noteq> 4 \<or> length end_num \<noteq> 4
                        \<or> \<not> py_isdigit start_num \<or> \<not> py_isdigit end_num
                then Inl (ValueError msg_four_digits)
                else
                  (case py_int start_num of
                     Inl err \<Rightarrow> Inl err
                   | Inr s \<Rightarrow>
                       (case py_int end_num of
                          Inl err \<Rightarrow> Inl err
                        | Inr e \<Rightarrow>
                            if \<not> (1 \<le> s \<and> s \<le> 9999 \<and> 1 \<le> e \<and> e \<le> 9999)
                            then Inl (ValueError msg_between)
                            else if e < s then Inl (ValueError msg_end_before_start)
                            else Inr (py_upper (py_strip se), s, e))))"
  using assms by (auto simp: validate_inputs_def Let_def)

lemma validate_inputs_passed_no_key_error:
  assumes "map_of COLOURS cc \<noteq> None" and "map_of SERIES_BY_SKU cc = Some allowed"
    and "py_upper (py_strip se) \<in> set allowed"
  shows "validate_inputs cc se st en \<noteq> Inl (KeyError k)"
  unfolding validate_inputs_numbers [OF assms]
  by (auto split: sum.splits dest: py_int_error)

text \<open>
  Claim C10. Every key of \<open>COLOURS\<close> is a key of \<open>SERIES_BY_SKU\<close>: a colour code that passes
  the first check has an entry in the series table, and \<open>validate_inputs\<close> never raises
  \<^verbatim>\<open>KeyError\<close>, whatever its four arguments.
\<close>

theorem colour_keys_have_series:
  "set (map fst COLOURS) \<subseteq> set (map fst SERIES_BY_SKU)
   \<and> (map_of COLOURS cc = None \<or> map_of SERIES_BY_SKU cc \<noteq> None)
   \<and> validate_inputs cc se st en \<noteq> Inl (KeyError k)"
proof (intro conjI)
  show "set (map fst COLOURS) \<subseteq> set (map fst SERIES_BY_SKU)"
    by (simp add: COLOURS_def SERIES_BY_SKU_def)
  show "map_of COLOURS cc = None \<or> map_of SERIES_BY_SKU cc \<noteq> None"
    using colours_keys [of cc] series_keys [of cc] by blast
  show "validate_inputs cc se st en \<noteq> Inl (KeyError k)"
  proof (cases "map_of COLOURS cc = None")
    case True
    then show ?thesis by (simp add: validate_inputs_colour)
  next
    case False
    then obtain allowed where a: "map_of SERIES_BY_SKU cc = Some allowed"
      using series_known by blast
    show ?thesis
    proof (cases "py_upper (py_strip se) \<in> set allowed")
      case True
      with False a show ?thesis
        by (rule validate_inputs_passed_no_key_error)
    next
      case notin: False
      with False a show ?thesis by (simp add: validate_inputs_series)
    qed
  qed
qed


theorem colour_keys_have_series_witness:
  "set (map fst COLOURS) \<subseteq> set (map fst SERIES_BY_SKU)
   \<and> map_of SERIES_BY_SKU ''AT0002'' = Some [''B'', ''F'', ''J'', ''N'', ''R'', ''V'', ''Z'']
   \<and> validate_inputs ''AT0002'' ''b'' ''0001'' ''0002'' \<noteq> Inl (KeyError ''AT0002'')
   \<and> validate_inputs ''AT0002'' ''b'' ''0001'' ''0002'' = Inr (''B'', 1, 2)"
proof -
  have a: "map_of SERIES_BY_SKU ''AT0002'' = Some [''B'', ''F'', ''J'', ''N'', ''R'', ''V'', ''Z'']"
    by (simp add: SERIES_BY_SKU_def py_list_def)
  have b: "validate_inputs ''AT0002'' ''b'' ''0001'' ''0002'' = Inr (''B'', 1, 2)"
    by code_simp
  from colour_keys_have_series [of "''AT0002''" "''b''" "''0001''" "''0002''" "''AT0002''"] a b
  show ?thesis by simp
qed

lemma allowed_letters_listed:
  "map (\<lambda>(k, v). (k, py_join '', '' v)) SERIES_BY_SKU =
     [(''AT0003'', ''A, E, I, M, Q, U, Y''),
      (''AT0002'', ''B, F, J, N, R, V, Z''),
      (''AT0001'', ''C, G, K, O, S, W''),
      (''AT0004'', ''D, H, L, P, T, X'')]"
  by (simp add: SERIES_BY_SKU_def py_list_def)

text \<open>
  Claim C5. A colour code that is not a key of \<open>COLOURS\<close> fails with the colour message,
  whatever the series and the numbers. For a known colour code with the allowed list
  \<open>allowed\<close>: when the stripped, upper-cased series is in the list, the series check passes
  (the result is not the series message: it is a success that returns the normalised
  series, or one of the errors of the number checks); otherwise the result is the series
  message, which ends with the letters of \<open>allowed\<close> separated by commas. The last
  conjunct lists that enumeration for each colour code.
\<close>

theorem colour_check_then_series_check:
  "(map_of COLOURS cc = None \<longrightarrow>
      validate_inputs cc se st en =
        Inl (ValueError ''Invalid colour code. Choose one of the listed AT000X values.''))
   \<and> (\<forall>allowed. map_of COLOURS cc \<noteq> None \<and> map_of SERIES_BY_SKU cc = Some allowed \<longrightarrow>
        (if py_upper (py_strip se) \<in> set allowed
         then validate_inputs cc se st en \<noteq> Inl (ValueError (msg_series cc allowed))
              \<and> (case validate_inputs cc se st en of
                    Inr (series, s, e) \<Rightarrow> series = py_upper (py_strip se)
                  | Inl err \<Rightarrow> err \<in> {ValueError msg_both, ValueError msg_four_digits,
                                        ValueError msg_between, ValueError msg_end_before_start,
                                        ValueError (msg_int_literal st),
                                        ValueError (msg_int_literal en)})
         else validate_inputs cc se st en =
                Inl (ValueError (''Invalid series for '' @ cc @ ''. Allowed: ''
                                 @ py_join '', '' allowed))))
   \<and> map (\<lambda>(k, v). (k, py_join '', '' v)) SERIES_BY_SKU =
       [(''AT0003'', ''A, E, I, M, Q, U, Y''),
        (''AT0002'', ''B, F, J, N, R, V, Z''),
        (''AT0001'', ''C, G, K, O, S, W''),
        (''AT0004'', ''D, H, L, P, T, X'')]"
proof (intro conjI impI allI)
  assume "map_of COLOURS cc = None"
  then show "validate_inputs cc se st en =
        Inl (ValueError ''Invalid colour code. Choose one of the listed AT000X values.'')"
    by (simp add: validate_inputs_colour msg_colour_def)
next
  fix allowed
  assume h: "map_of COLOURS cc \<noteq> None \<and> map_of SERIES_BY_SKU cc = Some allowed"
  show "if py_upper (py_strip se) \<in> set allowed
         then validate_inputs cc se st en \<noteq> Inl (ValueError (msg_series cc allowed))
              \<and> (case validate_inputs cc se st en of
                    Inr (series, s, e) \<Rightarrow> series = py_upper (py_strip se)
                  | Inl err \<Rightarrow> err \<in> {ValueError msg_both, ValueError msg_four_digits,
                                        ValueError msg_between, ValueError msg_end_before_start,
                                        ValueError (msg_int_literal st),
                                        ValueError (msg_int_literal en)})
         else validate_inputs cc se st en =
                Inl (ValueError (''Invalid series for '' @ cc @ ''. Allowed: ''
                                 @ py_join '', '' allowed))"
  proof (cases "py_upper (py_strip se) \<in> set allowed")
    case True
    have eq: "validate_inputs cc se st en =
                (if \<not> (st \<noteq> [] \<and> en \<noteq> []) then Inl (ValueError msg_both)
                else if length st \<noteq> 4 \<or> length en \<noteq> 4
                        \<or> \<not> py_isdigit st \<or> \<not> py_isdigit en
                then Inl (ValueError msg_four_digits)
                else
                  (case py_int st of
                     Inl err \<Rightarrow> Inl err
                   | Inr s \<Rightarrow>
                       (case py_int en of
                          Inl err \<Rightarrow> Inl err
                        | Inr e \<Rightarrow>
                            if \<not> (1 \<le> s \<and> s \<le> 9999 \<and> 1 \<le> e \<and> e \<le> 9999)
                            then Inl (ValueError msg_between)
                            else if e < s then Inl (ValueError msg_end_before_start)
                            else Inr (py_upper (py_strip se), s, e))))"
      using h True by (intro validate_inputs_numbers) auto
    have kinds: "case validate_inputs cc se st en of
                    Inr (series, s, e) \<Rightarrow> series = py_upper (py_strip se)
                  | Inl err \<Rightarrow> err \<in> {ValueError msg_both, ValueError msg_four_digits,
                                        ValueError msg_between, ValueError msg_end_before_start,
                                        ValueError (msg_int_literal st),
                                        ValueError (msg_int_literal en)}"
      unfolding eq by (auto split: sum.splits dest: py_int_error)
    have differ: "msg_series cc allowed \<notin> {msg_both, msg_four_digits, msg_between,
                     msg_end_before_start, msg_int_literal st, msg_int_literal en}"
      by (simp add: msg_series_def msg_both_def msg_four_digits_def msg_between_def
          msg_end_before_start_def msg_int_literal_def)
    have "validate_inputs cc se st en \<noteq> Inl (ValueError (msg_series cc allowed))"
      using kinds differ by (auto split: sum.splits)
    with kinds True show ?thesis by simp
  next
    case False
    with h show ?thesis
      by (simp add: validate_inputs_series msg_series_def)
  qed
next
  show "map (\<lambda>(k, v). (k, py_join '', '' v)) SERIES_BY_SKU =
       [(''AT0003'', ''A, E, I, M, Q, U, Y''),
        (''AT0002'', ''B, F, J, N, R, V, Z''),
        (''AT0001'', ''C, G, K, O, S, W''),
        (''AT0004'', ''D, H, L, P, T, X'')]"
    by (rule allowed_letters_listed)
qed

theorem colour_check_then_series_check_witness:
  "validate_inputs ''AT0009'' ''Q'' ''0001'' ''0002'' =
      Inl (ValueError ''Invalid colour code. Choose one of the listed AT000X values.'')
   \<and> validate_inputs ''AT0004'' ''A'' ''0001'' ''0002'' =
      Inl (ValueError ''Invalid series for AT0004. Allowed: D, H, L, P, T, X'')
   \<and> validate_inputs ''AT0004'' '' d '' ''0001'' ''0002''
        \<noteq> Inl (ValueError (msg_series ''AT0004'' (py_list ''DHLPTX'')))
   \<and> validate_inputs ''AT0004'' '' d '' ''0001'' ''0002'' = Inr (''D'', 1, 2)"
proof -
  have c1: "map_of COLOURS ''AT0009'' = None" by (simp add: COLOURS_def)
  have c2: "map_of COLOURS ''AT0004'' \<noteq> None
            \<and> map_of SERIES_BY_SKU ''AT0004'' = Some (py_list ''DHLPTX'')"
    by (simp add: COLOURS_def SERIES_BY_SKU_def)
  have bad: "py_upper (py_strip ''A'') \<notin> set (py_list ''DHLPTX'')" by code_simp
  have good: "py_upper (py_strip '' d '') \<in> set (py_list ''DHLPTX'')" by code_simp
  have j: "py_join '', '' (py_list ''DHLPTX'') = ''D, H, L, P, T, X''"
    by (simp add: py_list_def)
  have r: "validate_inputs ''AT0004'' '' d '' ''0001'' ''0002'' = Inr (''D'', 1, 2)"
    by code_simp
  note t1 = colour_check_then_series_check [of "''AT0009''" "''Q''" "''0001''" "''0002''"]
  note t2 = colour_check_then_series_check [of "''AT0004''" "''A''" "''0001''" "''0002''"]
  note t3 = colour_check_then_series_check [of "''AT0004''" "'' d ''" "''0001''" "''0002''"]
  have a: "validate_inputs ''AT0009'' ''Q'' ''0001'' ''0002'' =
      Inl (ValueError ''Invalid colour code. Choose one of the listed AT000X values.'')"
    using t1 [THEN conjunct1, THEN mp, OF c1] .
  have "validate_inputs ''AT0004'' ''A'' ''0001'' ''0002'' =
      Inl (ValueError (''Invalid series for '' @ ''AT0004'' @ ''. Allowed: ''
                        @ py_join '', '' (py_list ''DHLPTX'')))"
    using t2 [THEN conjunct2, THEN conjunct1, THEN spec, of "py_list ''DHLPTX''", THEN mp, OF c2,
              unfolded if_not_P [OF bad]] .
  then have b: "validate_inputs ''AT0004'' ''A'' ''0001'' ''0002'' =
      Inl (ValueError ''Invalid series for AT0004. Allowed: D, H, L, P, T, X'')"
    unfolding j by simp
  have c: "validate_inputs ''AT0004'' '' d '' ''0001'' ''0002''
        \<noteq> Inl (ValueError (msg_series ''AT0004'' (py_list ''DHLPTX'')))"
    using t3 [THEN conjunct2, THEN conjunct1, THEN spec, of "py_list ''DHLPTX''", THEN mp, OF c2,
              unfolded if_P [OF good]] by (rule conjunct1)
  from a b c r show ?thesis by blast
qed

text \<open>
  Claim C4. For a known colour code and an allowed series, and start and end texts of
  exactly four decimal digits whose values lie between 1 and 9999: the validation returns
  the two values (with the normalised series) when the start is at most the end, and fails
  with the message that the end number must be greater than or equal to the start number
  when the end is below the start.
\<close>

theorem valid_range_accepted:
  assumes "map_of COLOURS cc \<noteq> None" and "map_of SERIES_BY_SKU cc = Some allowed"
    and "py_upper (py_strip se) \<in> set allowed"
    and "length st = 4" and "list_all is_decimal st"
    and "length en = 4" and "list_all is_decimal en"
    and "1 \<le> decimal_value st" and "decimal_value st \<le> 9999"
    and "1 \<le> decimal_value en" and "decimal_value en \<le> 9999"
  shows "validate_inputs cc se st en =
           (if decimal_value st \<le> decimal_value en
            then Inr (py_upper (py_strip se), decimal_value st, decimal_value en)
            else Inl (ValueError ''End number must be greater than or equal to Start number.''))"
proof -
  have ne: "st \<noteq> []" "en \<noteq> []" using assms(4,6) by auto
  have dig: "py_isdigit st" "py_isdigit en"
    using ne assms(5,7) by (simp_all add: py_isdigit_decimal)
  have ints: "py_int st = Inr (decimal_value st)" "py_int en = Inr (decimal_value en)"
    using ne assms(5,7) by (simp_all add: py_int_decimal)
  show ?thesis
    unfolding validate_inputs_numbers [OF assms(1-3)]
    using ne dig ints assms(4,6,8-11) by (simp add: msg_end_before_start_def)
qed

theorem valid_range_accepted_witness:
  "validate_inputs ''AT0003'' ''q'' ''0007'' ''0315'' = Inr (''Q'', 7, 315)
   \<and> validate_inputs ''AT0003'' ''q'' ''0315'' ''0007''
       = Inl (ValueError ''End number must be greater than or equal to Start number.'')"
proof -
  have c: "map_of COLOURS ''AT0003'' \<noteq> None" by (simp add: COLOURS_def)
  have a: "map_of SERIES_BY_SKU ''AT0003'' = Some (py_list ''AEIMQUY'')"
    by (simp add: SERIES_BY_SKU_def)
  have q: "py_upper (py_strip ''q'') = ''Q''" by code_simp
  have m: "py_upper (py_strip ''q'') \<in> set (py_list ''AEIMQUY'')"
    unfolding q by (simp add: py_list_def)
  have l: "length ''0007'' = 4" "length ''0315'' = 4" by simp_all
  have d: "list_all is_decimal ''0007''" "list_all is_decimal ''0315''" by code_simp+
  have v: "decimal_value ''0007'' = 7" "decimal_value ''0315'' = 315" by code_simp+
  have b: "1 \<le> decimal_value ''0007''" "decimal_value ''0007'' \<le> 9999"
    "1 \<le> decimal_value ''0315''" "decimal_value ''0315'' \<le> 9999"
    unfolding v by simp_all
  from valid_range_accepted [OF c a m l(1) d(1) l(2) d(2) b(1) b(2) b(3) b(4)]
    valid_range_accepted [OF c a m l(2) d(2) l(1) d(1) b(3) b(4) b(1) b(2)]
  show ?thesis unfolding v q by simp
qed

subsection \<open>Four-digit numbers\<close>

text \<open>
  The format \<^verbatim>\<open>04d\<close> of a number from 0 to 9999 is a text of four decimal digits whose
  value is the number: the texts the validation accepts are the texts the loop prints.
\<close>

lemma of_char_digit_char: "d < 10 \<Longrightarrow> of_char (digit_char d) = (48 + d :: nat)"
  by (simp add: digit_char_def)

lemma digit_char_0: "digit_char 0 = CHR ''0''"
  by code_simp

lemma is_decimal_digit_char: "d < 10 \<Longrightarrow> is_decimal (digit_char d)"
  by (simp add: is_decimal_def of_char_digit_char)

lemma digits_of_small: "n < 10 \<Longrightarrow> digits_of n = [digit_char n]"
  by (simp add: digits_of.simps)

lemma digits_of_step: "10 \<le> n \<Longrightarrow> digits_of n = digits_of (n div 10) @ [digit_char (n mod 10)]"
  by (subst digits_of.simps) simp

lemma zero_pad_1: "zero_pad 4 [a] = [CHR ''0'', CHR ''0'', CHR ''0'', a]"
  by (simp add: zero_pad_def numeral_3_eq_3)

lemma zero_pad_2: "zero_pad 4 [a, b] = [CHR ''0'', CHR ''0'', a, b]"
  by (simp add: zero_pad_def numeral_2_eq_2)

lemma zero_pad_3: "zero_pad 4 [a, b, c] = [CHR ''0'', a, b, c]"
  by (simp add: zero_pad_def)

lemma zero_pad_4: "zero_pad 4 [a, b, c, d] = [a, b, c, d]"
  by (simp add: zero_pad_def)

lemma div_10_10: "(n::nat) div 10 div 10 = n div 100"
  by (simp add: div_mult2_eq [symmetric])

lemma div_100_10: "(n::nat) div 100 div 10 = n div 1000"
  by (simp add: div_mult2_eq [symmetric])

lemma zero_pad_digits_of:
  assumes "n < 10000"
  shows "zero_pad 4 (digits_of n) =
           [digit_char (n div 1000), digit_char (n div 100 mod 10),
            digit_char (n div 10 mod 10), digit_char (n mod 10)]"
proof -
  consider "n < 10" | "10 \<le> n" "n < 100" | "100 \<le> n" "n < 1000" | "1000 \<le> n"
    by linarith
  then show ?thesis
  proof cases
    case 1
    then have "digits_of n = [digit_char n]" by (rule digits_of_small)
    with 1 show ?thesis by (simp add: zero_pad_1 digit_char_0)
  next
    case 2
    then have "digits_of n = [digit_char (n div 10), digit_char (n mod 10)]"
      by (simp add: digits_of_step [of n] digits_of_small)
    with 2 show ?thesis by (simp add: zero_pad_2 digit_char_0)
  next
    case 3
    have "digits_of (n div 10) = [digit_char (n div 100), digit_char (n div 10 mod 10)]"
      using 3 by (simp add: digits_of_step [of "n div 10"] digits_of_small div_10_10)
    then have "digits_of n
        = [digit_char (n div 100), digit_char (n div 10 mod 10), digit_char (n mod 10)]"
      using 3 by (simp add: digits_of_step [of n])
    with 3 show ?thesis by (simp add: zero_pad_3 digit_char_0)
  next
    case 4
    have "digits_of (n div 100) = [digit_char (n div 1000), digit_char (n div 100 mod 10)]"
      using 4 assms
      by (simp add: digits_of_step [of "n div 100"] digits_of_small div_100_10)
    then have "digits_of (n div 10)
        = [digit_char (n div 1000), digit_char (n div 100 mod 10), digit_char (n div 10 mod 10)]"
      using 4 by (simp add: digits_of_step [of "n div 10"] div_10_10)
    then have "digits_of n
        = [digit_char (n div 1000), digit_char (n div 100 mod 10),
           digit_char (n div 10 mod 10), digit_char (n mod 10)]"
      using 4 by (simp add: digits_of_step [of n])
    then show ?thesis by (simp add: zero_pad_4)
  qed
qed


lemma four_digits_sum:
  "1000 * ((n::nat) div 1000) + 100 * (n div 100 mod 10) + 10 * (n div 10 mod 10) + n mod 10 = n"
proof -
  have a: "n = 10 * (n div 10) + n mod 10" by simp
  have b: "n div 10 = 10 * (n div 100) + n div 10 mod 10"
    using div_mult_mod_eq [of "n div 10" 10] by (simp add: div_10_10 mult.commute)
  have c: "n div 100 = 10 * (n div 1000) + n div 100 mod 10"
    using div_mult_mod_eq [of "n div 100" 10] by (simp add: div_100_10 mult.commute)
  from a b c show ?thesis by linarith
qed

lemma format_04d_parses_back:
  assumes "0 \<le> i" and "i \<le> 9999"
  shows "length (format_04d i) = 4 \<and> list_all is_decimal (format_04d i)
         \<and> decimal_value (format_04d i) = i"
proof -
  define n where "n = nat i"
  have n: "n < 10000" and i: "i = int n" using assms by (simp_all add: n_def)
  have f: "format_04d i =
           [digit_char (n div 1000), digit_char (n div 100 mod 10),
            digit_char (n div 10 mod 10), digit_char (n mod 10)]"
    using assms(1) zero_pad_digits_of [OF n] by (simp add: format_04d_def n_def)
  have d: "n div 1000 < 10" using n by simp
  have "decimal_value (format_04d i)
          = int (1000 * (n div 1000) + 100 * (n div 100 mod 10) + 10 * (n div 10 mod 10) + n mod 10)"
    unfolding f using d by (simp add: decimal_value_def of_char_digit_char)
  then have "decimal_value (format_04d i) = i"
    unfolding four_digits_sum i .
  moreover have "list_all is_decimal (format_04d i)"
    unfolding f using d by (simp add: is_decimal_digit_char)
  ultimately show ?thesis unfolding f by simp
qed

lemma formatted_range_accepted:
  assumes "map_of COLOURS cc \<noteq> None" and "map_of SERIES_BY_SKU cc = Some allowed"
    and "py_upper (py_strip se) \<in> set allowed"
    and "1 \<le> s" and "s \<le> e" and "e \<le> 9999"
  shows "validate_inputs cc se (format_04d s) (format_04d e) = Inr (py_upper (py_strip se), s, e)"
proof -
  have fs: "length (format_04d s) = 4" "list_all is_decimal (format_04d s)"
    "decimal_value (format_04d s) = s"
    using format_04d_parses_back [of s] assms(4-6) by simp_all
  have fe: "length (format_04d e) = 4" "list_all is_decimal (format_04d e)"
    "decimal_value (format_04d e) = e"
    using format_04d_parses_back [of e] assms(4-6) by simp_all
  have ne: "format_04d s \<noteq> []" "format_04d e \<noteq> []" using fs(1) fe(1) by auto
  have dig: "py_isdigit (format_04d s)" "py_isdigit (format_04d e)"
    using ne fs(2) fe(2) by (simp_all add: py_isdigit_decimal)
  have ints: "py_int (format_04d s) = Inr s" "py_int (format_04d e) = Inr e"
    using ne fs(2,3) fe(2,3) by (simp_all add: py_int_decimal)
  show ?thesis
    unfolding validate_inputs_numbers [OF assms(1-3)]
    using ne dig ints fs(1) fe(1) assms(4-6) by simp
qed

text \<open>
  An end of 0000 is refused by the range check, which comes before the comparison of the
  end with the start.
\<close>

lemma end_zero_refused_by_range_check:
  "validate_inputs ''AT0004'' ''D'' ''0005'' ''0000'' = Inl (ValueError msg_between)"
  by code_simp

subsection \<open>One label per serial number\<close>

lemma barcode_texts_append: "barcode_texts (a @ b) = barcode_texts a @ barcode_texts b"
  by (induction a rule: barcode_texts.induct) simp_all

lemma page_count_append: "page_count (a @ b) = page_count a + page_count b"
  by (induction a rule: page_count.induct) simp_all

lemma draw_single_label_reads:
  "\<exists>c'. draw_single_label enc sw c t n = Inr c'
        \<and> barcode_texts c' = barcode_texts c @ [t] \<and> page_count c' = page_count c"
proof -
  obtain bw q where "draw_single_label enc sw c t n =
     Inr (c @ [DrawOn \<lparr>barcode_value = t, barHeight = bar_height, barWidth = bw,
                        humanReadable = False\<rparr>
                 (left_margin + q) (bottom_margin + text_band_h + (usable_h - bar_height) / 2),
               SetFillColor ''black'',
               SetFont font_name font_size,
               DrawString ((PAGE_W - sw (t @ '' | '' @ n) font_name font_size) / 2)
                 bottom_margin (t @ '' | '' @ n)])"
    using draw_single_label_total by blast
  then show ?thesis by (simp add: barcode_texts_append page_count_append)
qed

lemma label_pages_reads:
  "\<exists>c'. label_pages enc sw cc se cn c nums = Inr c'
        \<and> barcode_texts c' = barcode_texts c @ map (\<lambda>i. cc @ ''-'' @ se @ format_04d i) nums
        \<and> page_count c' = page_count c + length nums"
proof (induction nums arbitrary: c)
  case Nil
  then show ?case by simp
next
  case (Cons i rest)
  obtain c1 where d: "draw_single_label enc sw c (cc @ ''-'' @ se @ format_04d i) cn = Inr c1"
    and t: "barcode_texts c1 = barcode_texts c @ [cc @ ''-'' @ se @ format_04d i]"
    and p: "page_count c1 = page_count c"
    using draw_single_label_reads by blast
  obtain c' where l: "label_pages enc sw cc se cn (c1 @ [ShowPage]) rest = Inr c'"
    and t': "barcode_texts c' = barcode_texts (c1 @ [ShowPage])
                 @ map (\<lambda>i. cc @ ''-'' @ se @ format_04d i) rest"
    and p': "page_count c' = page_count (c1 @ [ShowPage]) + length rest"
    using Cons.IH by blast
  have "label_pages enc sw cc se cn c (i # rest) = Inr c'"
    using d l by (simp add: Let_def)
  moreover have "barcode_texts c'
      = barcode_texts c @ map (\<lambda>i. cc @ ''-'' @ se @ format_04d i) (i # rest)"
    using t t' by (simp add: barcode_texts_append)
  moreover have "page_count c' = page_count c + length (i # rest)"
    using p p' by (simp add: page_count_append)
  ultimately show ?case by blast
qed

lemma validate_inputs_accepts:
  assumes "validate_inputs cc se st en = Inr (series, s, e)"
  shows "map_of COLOURS cc \<noteq> None \<and> 1 \<le> s \<and> s \<le> e \<and> e \<le> 9999"
proof -
  have known: "map_of COLOURS cc \<noteq> None"
    using assms validate_inputs_colour [of cc se st en] by auto
  then obtain allowed where a: "map_of SERIES_BY_SKU cc = Some allowed"
    using series_known by blast
  have m: "py_upper (py_strip se) \<in> set allowed"
    using assms validate_inputs_series [OF known a, of se st en] by auto
  show ?thesis
    using assms known unfolding validate_inputs_numbers [OF known a m]
    by (auto split: if_splits sum.splits)
qed

text \<open>
  Claim C6. When the validation of the stripped form fields returns \<open>(series, s, e)\<close>, then
  \<open>s \<le> e\<close> and the handler answers with a document whose symbols are, in drawing order,
  the texts \<open>color_code-series\<close> followed by the four-digit number, for the numbers from
  \<open>s\<close> to \<open>e\<close> in ascending order: \<open>e - s + 1\<close> labels on as many pages. The instance
  that follows the theorem is the range AT0004, series D, 0001 to 0003, with its three
  texts.
\<close>

theorem one_label_per_serial_number:
  assumes "validate_inputs (py_strip f_color) (py_strip f_series) (py_strip f_start)
             (py_strip f_end) = Inr (series, s, e)"
  shows "s \<le> e
         \<and> (\<exists>c filename.
               index_post enc sw f_color f_series f_start f_end = Inr (SendFile c filename)
               \<and> barcode_texts c
                   = map (\<lambda>i. py_strip f_color @ ''-'' @ series @ format_04d i) [s..e]
               \<and> length (barcode_texts c) = nat (e - s + 1)
               \<and> page_count c = nat (e - s + 1))"
proof -
  from validate_inputs_accepts [OF assms]
  have known: "map_of COLOURS (py_strip f_color) \<noteq> None" and le: "s \<le> e" by auto
  then obtain color_name where cn: "map_of COLOURS (py_strip f_color) = Some color_name"
    by blast
  obtain c where l: "label_pages enc sw (py_strip f_color) series color_name [] [s..e] = Inr c"
    and t: "barcode_texts c = barcode_texts []
               @ map (\<lambda>i. py_strip f_color @ ''-'' @ series @ format_04d i) [s..e]"
    and p: "page_count c = page_count [] + length [s..e]"
    using label_pages_reads by blast
  have "index_post enc sw f_color f_series f_start f_end =
          Inr (SendFile c (''barcodes_'' @ py_strip f_color @ ''_'' @ series @ format_04d s
                               @ ''-'' @ series @ format_04d e @ ''.pdf''))"
    using assms cn l by (simp add: index_post_def Let_def)
  moreover have "barcode_texts c
      = map (\<lambda>i. py_strip f_color @ ''-'' @ series @ format_04d i) [s..e]"
    using t by simp
  moreover have "length (barcode_texts c) = nat (e - s + 1)"
    using t by simp
  moreover have "page_count c = nat (e - s + 1)"
    using p by simp
  ultimately show ?thesis using le by blast
qed

theorem one_label_per_serial_number_witness:
  "validate_inputs (py_strip ''AT0004'') (py_strip ''D'') (py_strip ''0001'') (py_strip ''0003'')
      = Inr (''D'', 1, 3)
   \<and> (\<exists>c filename.
         index_post (\<lambda>bc. 203) (\<lambda>s f z. 50) ''AT0004'' ''D'' ''0001'' ''0003''
            = Inr (SendFile c filename)
         \<and> barcode_texts c = [''AT0004-D0001'', ''AT0004-D0002'', ''AT0004-D0003'']
         \<and> length (barcode_texts c) = 3
         \<and> page_count c = 3)"
proof -
  have h: "validate_inputs (py_strip ''AT0004'') (py_strip ''D'') (py_strip ''0001'')
             (py_strip ''0003'') = Inr (''D'', 1, 3)"
    by code_simp
  have texts: "map (\<lambda>i. py_strip ''AT0004'' @ ''-'' @ ''D'' @ format_04d i) [1..3]
                 = [''AT0004-D0001'', ''AT0004-D0002'', ''AT0004-D0003'']"
    by code_simp
  from one_label_per_serial_number [OF h, of "\<lambda>bc. 203" "\<lambda>s f z. 50"]
  have "\<exists>c filename.
         index_post (\<lambda>bc. 203) (\<lambda>s f z. 50) ''AT0004'' ''D'' ''0001'' ''0003''
            = Inr (SendFile c filename)
         \<and> barcode_texts c = [''AT0004-D0001'', ''AT0004-D0002'', ''AT0004-D0003'']
         \<and> length (barcode_texts c) = 3
         \<and> page_count c = 3"
    unfolding texts by simp
  with h show ?thesis by blast
qed

end
